theory Spec2Isabelle
  imports Main
begin

section \<open>Data model\<close>

text \<open>
  The admin module works on the rows of four tables through the object-relational
  mapper: users, tags, documents and validation tasks. A table with a primary key is a
  map from the key to the row; the task table is kept as the sequence of its rows,
  because the task list is a sequence. A model instance in the program (a user, a tag,
  a document held in a variable) is the pair of its primary key and its column values.

  Primary keys are integers. Characters are code points below 256.
\<close>

type_synonym pk = int

text \<open>
  The request carries texts. For the two model choices \<^verbatim>\<open>assigned_to\<close> and
  \<^verbatim>\<open>tag\<close> the form field looks the value up, and every value that is not the key of
  a row is an invalid choice, whatever it is; these two are taken as keys already.
  The values of \<^verbatim>\<open>_selected_action\<close> go to the query as they come. What happens to
  such a value depends only on what the conversion \<^verbatim>\<open>int(value)\<close> of the key field
  makes of it, and the value is modelled by that: \<open>Int_text k\<close> is a text that converts
  to the integer \<open>k\<close>, as \<^verbatim>\<open>'12'\<close> does to 12, and \<open>Other_text t\<close> is a text \<open>t\<close>
  that does not convert, as \<^verbatim>\<open>'abc'\<close>.
\<close>

datatype id_text = Int_text int | Other_text string

datatype exception = ValueError | OverflowError

type_synonym date = "nat \<times> nat \<times> nat"

record user =
  is_superuser :: bool
  groups :: "string list"

record tag =
  tag_name :: string
  due_date :: "date option"

record document =
  title :: string
  doc_tags :: "pk list"

record validation_task =
  task_pk :: pk
  assigned_to :: pk
  created_by :: pk
  task_tag :: "pk option"
  task_note :: string
  task_due_date :: "date option"
  task_documents :: "pk list"

text \<open>
  \<open>doc_tags\<close> and \<open>task_documents\<close> are the many-to-many relations
  \<^verbatim>\<open>doc.tags\<close> and \<^verbatim>\<open>task.documents\<close>, as the lists of the related primary keys.
  The status and the creation time of a task are filled in by the model's own defaults
  and are not touched by this module.
\<close>

record db =
  users :: "pk \<rightharpoonup> user"
  tags :: "pk \<rightharpoonup> tag"
  documents :: "pk \<rightharpoonup> document"
  tasks :: "validation_task list"

record post =
  POST_apply :: bool
  POST_selected_action :: "id_text list"
  POST_assigned_to :: "pk option"
  POST_tag :: "pk option"
  POST_note :: "string option"

text \<open>
  \<open>POST_apply\<close> is \<^verbatim>\<open>'apply' in request.POST\<close>; \<open>POST_selected_action\<close> is
  \<^verbatim>\<open>request.POST.getlist('_selected_action')\<close> (empty when the key is missing);
  the other three are \<^verbatim>\<open>request.POST.get(...)\<close>, \<open>None\<close> when the key is missing or
  its value is blank.
\<close>

record request =
  request_user :: "pk \<times> user"
  POST :: post


section \<open>ValidationTaskAdmin\<close>

text \<open>\<^verbatim>\<open>user.groups.filter(name=g).exists()\<close>\<close>

definition groups_filter_name_exists :: "string \<Rightarrow> user \<Rightarrow> bool" where
  "groups_filter_name_exists g u = (g \<in> set (groups u))"

text \<open>
  \<^verbatim>\<open>get_queryset\<close>: the base queryset is the whole task table; the union
  \<^verbatim>\<open>qs.filter(created_by=u) | qs.filter(assigned_to=u)\<close> of two filters of one
  queryset is the one query whose condition is the disjunction.
\<close>

definition get_queryset :: "request \<Rightarrow> db \<Rightarrow> validation_task list" where
  "get_queryset req s =
     (let qs = tasks s in
      if \<not> is_superuser (snd (request_user req)) then
        if groups_filter_name_exists ''Staff'' (snd (request_user req)) then
          filter (\<lambda>t. created_by t = fst (request_user req)
                     \<or> assigned_to t = fst (request_user req)) qs
        else []
      else qs)"

definition has_add_permission :: "request \<Rightarrow> bool" where
  "has_add_permission req =
     (if is_superuser (snd (request_user req))
         \<or> groups_filter_name_exists ''Staff'' (snd (request_user req))
      then True else False)"


section \<open>AssignValidationTaskForm\<close>

datatype field_error = Required | Invalid_choice | Null_characters

text \<open>
  The whitespace that \<^verbatim>\<open>str.strip()\<close> removes, among the code points below 256:
  tab to carriage return, the four separators 28 to 31, the space, 133 and 160.
\<close>

definition isspace :: "char \<Rightarrow> bool" where
  "isspace c = (of_char c \<in> {9, 10, 11, 12, 13, 28, 29, 30, 31, 32, 133, 160 :: nat})"

definition strip :: "string \<Rightarrow> string" where
  "strip v = rev (dropWhile isspace (rev (dropWhile isspace v)))"

text \<open>
  \<^verbatim>\<open>forms.CharField\<close> on one text value: the value is stripped; an empty value is an
  error only for a required field; a value that is not empty must hold no null
  character.
\<close>

definition CharField_clean :: "bool \<Rightarrow> string option \<Rightarrow> field_error + string" where
  "CharField_clean required raw =
     (let v = (case raw of None \<Rightarrow> [] | Some x \<Rightarrow> strip x) in
      if v = [] then (if required then Inl Required else Inr [])
      else if CHR 0x00 \<in> set v then Inl Null_characters
      else Inr v)"

text \<open>
  \<^verbatim>\<open>forms.CharField(widget=forms.MultipleHiddenInput)\<close>: the widget hands the field the
  list of all values of the key. The empty list is an empty value. The cleaned value of
  any other list is the text of the list, which is never empty and writes a null
  character as an escape; the admin action never reads it, so the list itself stands
  for it here.
\<close>

definition CharField_clean_list :: "bool \<Rightarrow> id_text list \<Rightarrow> field_error + id_text list" where
  "CharField_clean_list required raw =
     (if raw = [] then (if required then Inl Required else Inr []) else Inr raw)"

text \<open>
  \<^verbatim>\<open>forms.ModelChoiceField(queryset=...)\<close>, declared without \<^verbatim>\<open>required=False\<close> and
  therefore required: a missing or blank value is an error, a key with no row in the
  queryset is an invalid choice, and the cleaned value is the instance found.
\<close>

definition ModelChoiceField_clean ::
  "(pk \<rightharpoonup> 'r) \<Rightarrow> pk option \<Rightarrow> field_error + pk \<times> 'r" where
  "ModelChoiceField_clean queryset raw =
     (case raw of
        None \<Rightarrow> Inl Required
      | Some k \<Rightarrow>
          (case queryset k of
             None \<Rightarrow> Inl Invalid_choice
           | Some r \<Rightarrow> Inr (k, r)))"

record cleaned_data =
  cd_assigned_to :: "pk \<times> user"
  cd_tag :: "pk \<times> tag"
  cd_note :: string

record initial =
  initial_selected_action :: "id_text list"
  initial_assigned_to :: "pk \<times> user"

text \<open>
  A form is either unbound, holding its initial values, or bound to submitted data; a
  bound form, once validated, holds its field errors or its cleaned data.
\<close>

datatype form =
  Unbound initial
| Bound "(string \<times> field_error) list + cleaned_data"

definition field_errors :: "string \<Rightarrow> field_error + 'a \<Rightarrow> (string \<times> field_error) list" where
  "field_errors name r = (case r of Inl e \<Rightarrow> [(name, e)] | Inr _ \<Rightarrow> [])"

text \<open>
  The four fields of \<^verbatim>\<open>AssignValidationTaskForm\<close>, cleaned in the order of their
  declaration: \<^verbatim>\<open>_selected_action\<close> and the two model choices are required, the note
  is declared with \<^verbatim>\<open>required=False\<close>.
\<close>

definition full_clean :: "db \<Rightarrow> post \<Rightarrow> (string \<times> field_error) list + cleaned_data" where
  "full_clean s data =
     (let selected_action = CharField_clean_list True (POST_selected_action data);
          assigned = ModelChoiceField_clean (users s) (POST_assigned_to data);
          tg = ModelChoiceField_clean (tags s) (POST_tag data);
          nt = CharField_clean False (POST_note data);
          errs = field_errors ''_selected_action'' selected_action
               @ field_errors ''assigned_to'' assigned
               @ field_errors ''tag'' tg
               @ field_errors ''note'' nt
      in case selected_action of
           Inl _ \<Rightarrow> Inl errs
         | Inr _ \<Rightarrow>
             (case assigned of
                Inl _ \<Rightarrow> Inl errs
              | Inr u \<Rightarrow>
                  (case tg of
                     Inl _ \<Rightarrow> Inl errs
                   | Inr t \<Rightarrow>
                       (case nt of
                          Inl _ \<Rightarrow> Inl errs
                        | Inr n \<Rightarrow>
                            Inr \<lparr>cd_assigned_to = u, cd_tag = t, cd_note = n\<rparr>))))"

definition AssignValidationTaskForm :: "db \<Rightarrow> post \<Rightarrow> form" where
  "AssignValidationTaskForm s data = Bound (full_clean s data)"

fun is_valid :: "form \<Rightarrow> bool" where
  "is_valid (Unbound _) = False"
| "is_valid (Bound (Inl _)) = False"
| "is_valid (Bound (Inr _)) = True"

fun errors :: "form \<Rightarrow> (string \<times> field_error) list" where
  "errors (Unbound _) = []"
| "errors (Bound (Inl es)) = es"
| "errors (Bound (Inr _)) = []"


section \<open>DocumentAdmin.assign_validation_task\<close>

record page_context =
  ctx_form :: form
  ctx_documents :: "pk list"
  ctx_title :: string

text \<open>
  What a call of the action ends with: one of the two responses that it returns, or an
  exception that it lets through.
\<close>

datatype outcome =
  HttpResponseRedirect string
| Render string page_context
| Raised exception

datatype message = Success string

text \<open>The decimal text of a count, as an f-string writes it.\<close>

function str_nat :: "nat \<Rightarrow> string" where
  "str_nat n =
     (if n < 10 then [''0123456789'' ! n]
      else str_nat (n div 10) @ [''0123456789'' ! (n mod 10)])"
  by pat_completeness auto
termination
  by (relation "measure id") auto

declare str_nat.simps [simp del]

text \<open>\<^verbatim>\<open>tag.due_date if tag else None\<close>\<close>

definition due_date_of :: "(pk \<times> tag) option \<Rightarrow> date option" where
  "due_date_of tg = (case tg of Some t \<Rightarrow> due_date (snd t) | None \<Rightarrow> None)"

text \<open>The database gives a new row a primary key that no row of the table has.\<close>

definition next_pk :: "validation_task list \<Rightarrow> pk" where
  "next_pk ts = fold max (map task_pk ts) 0 + 1"

text \<open>
  \<^verbatim>\<open>ValidationTask.objects.create(...)\<close>: one new row, with no linked document yet; a
  foreign key column stores the primary key of the instance given.
\<close>

definition ValidationTask_objects_create ::
  "pk \<times> user \<Rightarrow> pk \<times> user \<Rightarrow> (pk \<times> tag) option \<Rightarrow> string \<Rightarrow> date option \<Rightarrow> db
     \<Rightarrow> validation_task \<times> db" where
  "ValidationTask_objects_create assignee creator tg nt dd s =
     (let task = \<lparr>task_pk = next_pk (tasks s),
                  assigned_to = fst assignee,
                  created_by = fst creator,
                  task_tag = map_option fst tg,
                  task_note = nt,
                  task_due_date = dd,
                  task_documents = []\<rparr>
      in (task, s\<lparr>tasks := tasks s @ [task]\<rparr>))"

text \<open>
  \<^verbatim>\<open>Document.objects.filter(pk__in=ids)\<close> builds the lookup and runs no query yet. In
  building it, the key field converts every value in turn, and a value that does not
  convert raises \<^verbatim>\<open>ValueError\<close>. The queryset is the list of the converted keys.
\<close>

definition get_prep_value :: "id_text \<Rightarrow> exception + pk" where
  "get_prep_value v = (case v of Int_text k \<Rightarrow> Inr k | Other_text _ \<Rightarrow> Inl ValueError)"

fun get_prep_lookup :: "id_text list \<Rightarrow> exception + pk list" where
  "get_prep_lookup [] = Inr []"
| "get_prep_lookup (v # vs) =
     (case get_prep_value v of
        Inl e \<Rightarrow> Inl e
      | Inr k \<Rightarrow>
          (case get_prep_lookup vs of
             Inl e \<Rightarrow> Inl e
           | Inr ks \<Rightarrow> Inr (k # ks)))"

definition Document_objects_filter_pk_in :: "id_text list \<Rightarrow> exception + pk list" where
  "Document_objects_filter_pk_in ids = get_prep_lookup ids"

text \<open>
  The query runs when the queryset is first read, which is in
  \<^verbatim>\<open>task.documents.set(documents)\<close>; the loop and the count read the rows fetched
  then. The database is SQLite, the default of the application: its integers have 64
  bits with a sign, and binding a key outside that range raises \<^verbatim>\<open>OverflowError\<close>. The
  rows found are the documents whose key is among the keys, once each; \<open>documents s\<close>
  holds the rows that the manager \<^verbatim>\<open>Document.objects\<close> sees. The order of the rows is
  the table's business; the model lists them in the order in which the keys first name
  them, and by the lemma \<open>assign_valid\<close> below the documents after the call and the
  count do not depend on that order. Limits of the database on the length of a query
  are not modelled.
\<close>

definition sqlite_integer :: "int \<Rightarrow> bool" where
  "sqlite_integer k = (- (2 ^ 63) \<le> k \<and> k < 2 ^ 63)"

definition fetch_all :: "pk list \<Rightarrow> db \<Rightarrow> exception + (pk \<times> document) list" where
  "fetch_all ks s =
     (if list_all sqlite_integer ks
      then Inr (List.map_filter (\<lambda>k. map_option (Pair k) (documents s k)) (remdups ks))
      else Inl OverflowError)"

text \<open>An update of the row with a given key, which does nothing when there is none.\<close>

definition update_row :: "pk \<Rightarrow> ('r \<Rightarrow> 'r) \<Rightarrow> (pk \<rightharpoonup> 'r) \<Rightarrow> (pk \<rightharpoonup> 'r)" where
  "update_row k f m = (case m k of None \<Rightarrow> m | Some r \<Rightarrow> m(k \<mapsto> f r))"

text \<open>
  \<^verbatim>\<open>task.documents.set(documents)\<close>, given the rows fetched: the task's links become
  exactly these.
\<close>

definition documents_set :: "validation_task \<Rightarrow> (pk \<times> document) list \<Rightarrow> db \<Rightarrow> db" where
  "documents_set task docs s =
     s\<lparr>tasks := map (\<lambda>t. if task_pk t = task_pk task
                          then t\<lparr>task_documents := map fst docs\<rparr> else t) (tasks s)\<rparr>"

text \<open>\<^verbatim>\<open>doc.tags.add(tag)\<close>: a relation that is already there is not added again.\<close>

definition related_add :: "pk \<Rightarrow> pk list \<Rightarrow> pk list" where
  "related_add k ks = (if k \<in> set ks then ks else ks @ [k])"

definition tags_add :: "pk \<times> document \<Rightarrow> pk \<times> tag \<Rightarrow> db \<Rightarrow> db" where
  "tags_add doc tg s =
     s\<lparr>documents := update_row (fst doc)
         (\<lambda>r. r\<lparr>doc_tags := related_add (fst tg) (doc_tags r)\<rparr>) (documents s)\<rparr>"

text \<open>
  \<^verbatim>\<open>doc.save()\<close>: the columns of the instance are written to its row; the relation to
  the tags is no column and is left alone.
\<close>

definition save :: "pk \<times> document \<Rightarrow> db \<Rightarrow> db" where
  "save doc s =
     s\<lparr>documents := update_row (fst doc) (\<lambda>r. r\<lparr>title := title (snd doc)\<rparr>) (documents s)\<rparr>"

text \<open>
  The action. Its result is the database after the call, the messages queued for the
  requester, and the outcome. The branch \<open>Bound (Inr cd)\<close> is the one where
  \<^verbatim>\<open>form.is_valid()\<close> holds and \<open>cd\<close> is \<^verbatim>\<open>form.cleaned_data\<close>; in every other
  case the control falls through to the page with the form. The task row is written
  before the documents are looked up, and the action runs in no transaction of its
  own: when the lookup raises, the row stays.
\<close>

definition render_form :: "form \<Rightarrow> pk list \<Rightarrow> outcome" where
  "render_form form queryset =
     Render ''admin/assign_validation_task.html''
       \<lparr>ctx_form = form, ctx_documents = queryset, ctx_title = ''Assign Validation Task''\<rparr>"

definition assign_validation_task ::
  "request \<Rightarrow> pk list \<Rightarrow> db \<Rightarrow> db \<times> message list \<times> outcome" where
  "assign_validation_task req queryset s =
     (if POST_apply (POST req) then
        (let form = AssignValidationTaskForm s (POST req) in
         case form of
           Bound (Inr cd) \<Rightarrow>
             (let assignee = cd_assigned_to cd;
                  tg = cd_tag cd;
                  nt = cd_note cd;
                  selected_ids = POST_selected_action (POST req);
                  (task, s1) = ValidationTask_objects_create assignee (request_user req)
                                 (Some tg) nt (due_date_of (Some tg)) s
              in case Document_objects_filter_pk_in selected_ids of
                   Inl e \<Rightarrow> (s1, [], Raised e)
                 | Inr doc_keys \<Rightarrow>
                     (case fetch_all doc_keys s1 of
                        Inl e \<Rightarrow> (s1, [], Raised e)
                      | Inr docs \<Rightarrow>
                          (let s2 = documents_set task docs s1;
                               s3 = fold (\<lambda>doc s'. save doc (tags_add doc tg s')) docs s2
                           in (s3,
                               [Success (''Validation task created for ''
                                         @ str_nat (length docs) @ '' documents.'')],
                               HttpResponseRedirect ''.''))))
         | _ \<Rightarrow> (s, [], render_form form queryset))
      else
        (let form = Unbound \<lparr>initial_selected_action = POST_selected_action (POST req),
                             initial_assigned_to = request_user req\<rparr>
         in (s, [], render_form form queryset)))"


section \<open>Auxiliary definitions\<close>

text \<open>A document row after the relation manager has added the tag \<open>t\<close> to it.\<close>

definition tagged :: "pk \<Rightarrow> document \<Rightarrow> document" where
  "tagged t r = r\<lparr>doc_tags := related_add t (doc_tags r)\<rparr>"

text \<open>
  The row that the action writes for a valid form, before any document is linked to it.
\<close>

definition new_task :: "request \<Rightarrow> cleaned_data \<Rightarrow> db \<Rightarrow> validation_task" where
  "new_task req cd s =
     \<lparr>task_pk = next_pk (tasks s),
      assigned_to = fst (cd_assigned_to cd),
      created_by = fst (request_user req),
      task_tag = Some (fst (cd_tag cd)),
      task_note = cd_note cd,
      task_due_date = due_date (snd (cd_tag cd)),
      task_documents = []\<rparr>"

text \<open>
  A small database and a submission for the concrete checks: the Staff user alice asks
  for a task for bob on the documents 1, 2 and 999, of which 999 does not exist, with
  the tag urgent, due on 2024-06-01; document 2 carries the tag already.
\<close>

definition alice :: "pk \<times> user" where
  "alice = (1, \<lparr>is_superuser = False, groups = [''Staff'']\<rparr>)"

definition bob :: "pk \<times> user" where
  "bob = (2, \<lparr>is_superuser = False, groups = []\<rparr>)"

definition root :: "pk \<times> user" where
  "root = (3, \<lparr>is_superuser = True, groups = []\<rparr>)"

definition urgent :: "pk \<times> tag" where
  "urgent = (7, \<lparr>tag_name = ''urgent'', due_date = Some (2024, 6, 1)\<rparr>)"

definition old_task :: "pk \<Rightarrow> pk \<Rightarrow> pk \<Rightarrow> validation_task" where
  "old_task k creator assignee =
     \<lparr>task_pk = k, assigned_to = assignee, created_by = creator, task_tag = None,
      task_note = [], task_due_date = None, task_documents = []\<rparr>"

definition example_db :: db where
  "example_db =
     \<lparr>users = [1 \<mapsto> snd alice, 2 \<mapsto> snd bob, 3 \<mapsto> snd root],
      tags = [7 \<mapsto> snd urgent],
      documents = [1 \<mapsto> \<lparr>title = ''invoice'', doc_tags = []\<rparr>,
                   2 \<mapsto> \<lparr>title = ''contract'', doc_tags = [7]\<rparr>],
      tasks = [old_task 1 1 2, old_task 2 3 3, old_task 3 2 1]\<rparr>"

definition example_post :: post where
  "example_post =
     \<lparr>POST_apply = True,
      POST_selected_action = [Int_text 1, Int_text 2, Int_text 999],
      POST_assigned_to = Some 2, POST_tag = Some 7, POST_note = Some ''please review''\<rparr>"

definition example_request :: request where
  "example_request = \<lparr>request_user = alice, POST = example_post\<rparr>"


section \<open>Properties of the parts\<close>

lemma fold_max_ge: "(a::int) \<le> fold max xs a"
  by (induction xs arbitrary: a) (auto intro: order_trans [OF max.cobounded2])

lemma fold_max_mem: "x \<in> set xs \<Longrightarrow> (x::int) \<le> fold max xs a"
proof (induction xs arbitrary: a)
  case Nil
  then show ?case by simp
next
  case (Cons y ys)
  show ?case
  proof (cases "x = y")
    case True
    have "y \<le> max y a" by simp
    also have "\<dots> \<le> fold max ys (max y a)" by (rule fold_max_ge)
    finally show ?thesis using True by simp
  next
    case False
    with Cons show ?thesis by simp
  qed
qed

lemma next_pk_fresh: "t \<in> set ts \<Longrightarrow> task_pk t \<noteq> next_pk ts"
proof -
  assume "t \<in> set ts"
  then have "task_pk t \<in> set (map task_pk ts)" by simp
  then have "task_pk t \<le> fold max (map task_pk ts) 0" by (rule fold_max_mem)
  then show ?thesis by (simp add: next_pk_def)
qed


lemma map_filter_keys:
  "map fst (List.map_filter (\<lambda>k. map_option (Pair k) (m k)) xs) = filter (\<lambda>k. m k \<noteq> None) xs"
  by (induction xs) (auto simp: List.map_filter_simps split: option.splits)

lemma map_filter_rows:
  "(k, r) \<in> set (List.map_filter (\<lambda>k. map_option (Pair k) (m k)) xs) \<Longrightarrow> m k = Some r"
  by (induction xs) (auto simp: List.map_filter_simps split: option.splits)


lemma get_prep_lookup_map: "get_prep_lookup (map Int_text ks) = Inr ks"
  by (induction ks) (simp_all add: get_prep_value_def)

lemma get_prep_lookup_InrD: "get_prep_lookup ids = Inr ks \<Longrightarrow> ids = map Int_text ks"
proof (induction ids arbitrary: ks)
  case Nil
  then show ?case by simp
next
  case (Cons v vs)
  from Cons.prems obtain k where v: "v = Int_text k"
    by (cases v) (simp_all add: get_prep_value_def)
  from Cons.prems v obtain ks' where vs: "get_prep_lookup vs = Inr ks'"
    by (cases "get_prep_lookup vs") (simp_all add: get_prep_value_def)
  have ks: "ks = k # ks'"
    using Cons.prems v vs by (simp add: get_prep_value_def)
  have "vs = map Int_text ks'" using vs by (rule Cons.IH)
  then show ?case using v ks by simp
qed

lemma get_prep_lookup_Inr: "get_prep_lookup ids = Inr ks \<longleftrightarrow> ids = map Int_text ks"
  using get_prep_lookup_map get_prep_lookup_InrD by blast

lemma get_prep_lookup_Inl: "get_prep_lookup ids = Inl e \<Longrightarrow> e = ValueError"
proof (induction ids)
  case Nil
  then show ?case by simp
next
  case (Cons v vs)
  then show ?case
    by (cases v; cases "get_prep_lookup vs") (auto simp: get_prep_value_def)
qed

lemma get_prep_lookup_Other:
  "Other_text t \<in> set ids \<Longrightarrow> get_prep_lookup ids = Inl ValueError"
proof -
  assume m: "Other_text t \<in> set ids"
  show ?thesis
  proof (cases "get_prep_lookup ids")
    case (Inl e)
    then show ?thesis using get_prep_lookup_Inl by simp
  next
    case (Inr ks)
    then have "ids = map Int_text ks" by (simp add: get_prep_lookup_Inr)
    with m show ?thesis by auto
  qed
qed

lemma fetch_all_keys:
  "fetch_all ks s = Inr docs \<Longrightarrow>
     map fst docs = filter (\<lambda>k. documents s k \<noteq> None) (remdups ks)"
  by (auto simp: fetch_all_def map_filter_keys split: if_splits)

lemma fetch_all_rows:
  "fetch_all ks s = Inr docs \<Longrightarrow> (k, r) \<in> set docs \<Longrightarrow> documents s k = Some r"
  by (auto simp: fetch_all_def split: if_splits dest: map_filter_rows)

lemma fetch_all_set:
  assumes "fetch_all ks s = Inr docs"
  shows "fst ` set docs = set ks \<inter> dom (documents s)"
proof -
  have "fst ` set docs = set (map fst docs)" by simp
  also have "\<dots> = set ks \<inter> dom (documents s)"
    unfolding fetch_all_keys [OF assms] by (auto simp: dom_def)
  finally show ?thesis .
qed

lemma fetch_all_distinct: "fetch_all ks s = Inr docs \<Longrightarrow> distinct (map fst docs)"
  by (simp add: fetch_all_keys)

lemma fetch_all_length:
  assumes "fetch_all ks s = Inr docs"
  shows "length docs = card (set ks \<inter> dom (documents s))"
proof -
  have "length docs = length (map fst docs)" by simp
  also have "\<dots> = card (set (map fst docs))"
    using fetch_all_distinct [OF assms] by (rule distinct_card [symmetric])
  also have "\<dots> = card (set ks \<inter> dom (documents s))"
    using fetch_all_set [OF assms] by simp
  finally show ?thesis .
qed

lemma step_documents:
  assumes "documents s k = Some r"
  shows "save (k, r) (tags_add (k, r) tg s) = s\<lparr>documents := (documents s)(k \<mapsto> tagged (fst tg) r)\<rparr>"
  using assms by (simp add: save_def tags_add_def update_row_def tagged_def)

lemma fold_step:
  assumes "distinct (map fst docs)"
    and "\<And>k r. (k, r) \<in> set docs \<Longrightarrow> documents s k = Some r"
  shows "fold (\<lambda>doc s'. save doc (tags_add doc tg s')) docs s
           = s\<lparr>documents := (\<lambda>k. if k \<in> fst ` set docs
                                   then map_option (tagged (fst tg)) (documents s k)
                                   else documents s k)\<rparr>"
  using assms
proof (induction docs arbitrary: s)
  case Nil
  then show ?case by simp
next
  case (Cons doc docs)
  obtain k r where doc: "doc = (k, r)" by (cases doc)
  have row: "documents s k = Some r" using Cons.prems(2) doc by simp
  let ?s1 = "s\<lparr>documents := (documents s)(k \<mapsto> tagged (fst tg) r)\<rparr>"
  have notin: "k \<notin> fst ` set docs" using Cons.prems(1) doc by simp
  have rows1: "\<And>j q. (j, q) \<in> set docs \<Longrightarrow> documents ?s1 j = Some q"
  proof -
    fix j q assume m: "(j, q) \<in> set docs"
    then have "j \<noteq> k" using notin by force
    then show "documents ?s1 j = Some q" using Cons.prems(2) m by simp
  qed
  have d: "distinct (map fst docs)" using Cons.prems(1) by simp
  have "fold (\<lambda>doc s'. save doc (tags_add doc tg s')) (doc # docs) s
          = fold (\<lambda>doc s'. save doc (tags_add doc tg s')) docs ?s1"
    using step_documents [OF row, of tg] doc by simp
  also have "\<dots> = ?s1\<lparr>documents := (\<lambda>j. if j \<in> fst ` set docs
                                   then map_option (tagged (fst tg)) (documents ?s1 j)
                                   else documents ?s1 j)\<rparr>"
    using d rows1 by (rule Cons.IH)
  also have "\<dots> = s\<lparr>documents := (\<lambda>j. if j \<in> fst ` set (doc # docs)
                                   then map_option (tagged (fst tg)) (documents s j)
                                   else documents s j)\<rparr>"
    using notin row doc by (auto simp: fun_eq_iff)
  finally show ?case .
qed


lemma documents_set_new:
  assumes "\<And>t. t \<in> set ts \<Longrightarrow> task_pk t \<noteq> task_pk task"
  shows "map (\<lambda>t. if task_pk t = task_pk task then t\<lparr>task_documents := ds\<rparr> else t) (ts @ [task])
           = ts @ [task\<lparr>task_documents := ds\<rparr>]"
  using assms by (simp add: map_idI)

lemma full_clean_Inr:
  "full_clean s data = Inr cd \<longleftrightarrow>
     POST_selected_action data \<noteq> []
     \<and> ModelChoiceField_clean (users s) (POST_assigned_to data) = Inr (cd_assigned_to cd)
     \<and> ModelChoiceField_clean (tags s) (POST_tag data) = Inr (cd_tag cd)
     \<and> CharField_clean False (POST_note data) = Inr (cd_note cd)"
  by (auto simp: full_clean_def Let_def CharField_clean_list_def split: sum.splits)

lemma ModelChoiceField_clean_Inr:
  "ModelChoiceField_clean m raw = Inr x \<longleftrightarrow> raw = Some (fst x) \<and> m (fst x) = Some (snd x)"
  by (cases x) (auto simp: ModelChoiceField_clean_def split: option.splits)

lemma full_clean_Inl: "full_clean s data = Inl errs \<Longrightarrow> errs \<noteq> []"
  by (auto simp: full_clean_def Let_def field_errors_def split: sum.splits)

lemma is_valid_iff: "is_valid (AssignValidationTaskForm s data) \<longleftrightarrow> (\<exists>cd. full_clean s data = Inr cd)"
  by (cases "full_clean s data") (simp_all add: AssignValidationTaskForm_def)


lemma assign_created:
  assumes ap: "POST_apply (POST req)"
    and fc: "full_clean s (POST req) = Inr cd"
  shows "assign_validation_task req queryset s =
     (case Document_objects_filter_pk_in (POST_selected_action (POST req)) of
        Inl e \<Rightarrow> (s\<lparr>tasks := tasks s @ [new_task req cd s]\<rparr>, [], Raised e)
      | Inr doc_keys \<Rightarrow>
          (case fetch_all doc_keys (s\<lparr>tasks := tasks s @ [new_task req cd s]\<rparr>) of
             Inl e \<Rightarrow> (s\<lparr>tasks := tasks s @ [new_task req cd s]\<rparr>, [], Raised e)
           | Inr docs \<Rightarrow>
               (fold (\<lambda>doc s'. save doc (tags_add doc (cd_tag cd) s')) docs
                  (documents_set (new_task req cd s) docs
                     (s\<lparr>tasks := tasks s @ [new_task req cd s]\<rparr>)),
                [Success (''Validation task created for '' @ str_nat (length docs)
                          @ '' documents.'')],
                HttpResponseRedirect ''.'')))"
proof -
  have create: "ValidationTask_objects_create (cd_assigned_to cd) (request_user req)
                  (Some (cd_tag cd)) (cd_note cd) (due_date_of (Some (cd_tag cd))) s
                = (new_task req cd s, s\<lparr>tasks := tasks s @ [new_task req cd s]\<rparr>)"
    by (simp add: ValidationTask_objects_create_def due_date_of_def Let_def new_task_def)
  show ?thesis
    using ap fc create
    by (simp add: assign_validation_task_def AssignValidationTaskForm_def Let_def
        split: sum.splits)
qed

lemma assign_value_error:
  assumes ap: "POST_apply (POST req)"
    and fc: "full_clean s (POST req) = Inr cd"
    and bad: "Other_text t \<in> set (POST_selected_action (POST req))"
  shows "assign_validation_task req queryset s
           = (s\<lparr>tasks := tasks s @ [new_task req cd s]\<rparr>, [], Raised ValueError)"
  unfolding assign_created [OF ap fc] Document_objects_filter_pk_in_def
  by (simp add: get_prep_lookup_Other [OF bad])

lemma assign_overflow_error:
  assumes ap: "POST_apply (POST req)"
    and fc: "full_clean s (POST req) = Inr cd"
    and ids: "POST_selected_action (POST req) = map Int_text ks"
    and big: "\<not> list_all sqlite_integer ks"
  shows "assign_validation_task req queryset s
           = (s\<lparr>tasks := tasks s @ [new_task req cd s]\<rparr>, [], Raised OverflowError)"
  unfolding assign_created [OF ap fc] Document_objects_filter_pk_in_def ids
  using big by (simp add: get_prep_lookup_map fetch_all_def)

lemma assign_valid:
  assumes ap: "POST_apply (POST req)"
    and fc: "full_clean s (POST req) = Inr cd"
    and ids: "POST_selected_action (POST req) = map Int_text ks"
    and fits: "list_all sqlite_integer ks"
  shows "assign_validation_task req queryset s =
     (s\<lparr>tasks := tasks s @
            [(new_task req cd s)
               \<lparr>task_documents := filter (\<lambda>k. documents s k \<noteq> None) (remdups ks)\<rparr>],
         documents := (\<lambda>k. if k \<in> set ks
                            then map_option (tagged (fst (cd_tag cd))) (documents s k)
                            else documents s k)\<rparr>,
      [Success (''Validation task created for ''
                @ str_nat (card (set ks \<inter> dom (documents s)))
                @ '' documents.'')],
      HttpResponseRedirect ''.'')"
proof -
  let ?task = "new_task req cd s"
  let ?s1 = "s\<lparr>tasks := tasks s @ [?task]\<rparr>"
  obtain docs where docs: "fetch_all ks ?s1 = Inr docs"
    using fits by (simp add: fetch_all_def)
  let ?s2 = "documents_set ?task docs ?s1"
  have fresh: "\<And>t. t \<in> set (tasks s) \<Longrightarrow> task_pk t \<noteq> task_pk ?task"
    using next_pk_fresh by (simp add: new_task_def)
  have s2: "?s2 = s\<lparr>tasks := tasks s @ [?task\<lparr>task_documents := map fst docs\<rparr>]\<rparr>"
    unfolding documents_set_def using documents_set_new [OF fresh] by simp
  have rows: "\<And>k r. (k, r) \<in> set docs \<Longrightarrow> documents ?s2 k = Some r"
    using fetch_all_rows [OF docs] by (simp add: documents_set_def)
  have dist: "distinct (map fst docs)" using docs by (rule fetch_all_distinct)
  have loop: "fold (\<lambda>doc s'. save doc (tags_add doc (cd_tag cd) s')) docs ?s2
           = ?s2\<lparr>documents := (\<lambda>k. if k \<in> fst ` set docs
                                   then map_option (tagged (fst (cd_tag cd))) (documents ?s2 k)
                                   else documents ?s2 k)\<rparr>"
    using dist rows by (rule fold_step)
  have docs_fun: "(\<lambda>k. if k \<in> fst ` set docs
                       then map_option (tagged (fst (cd_tag cd))) (documents ?s2 k)
                       else documents ?s2 k)
                = (\<lambda>k. if k \<in> set ks
                            then map_option (tagged (fst (cd_tag cd))) (documents s k)
                            else documents s k)"
    using fetch_all_set [OF docs] by (auto simp: fun_eq_iff documents_set_def dom_def)
  have len: "length docs = card (set ks \<inter> dom (documents s))"
    using fetch_all_length [OF docs] by simp
  have keys: "map fst docs = filter (\<lambda>k. documents s k \<noteq> None) (remdups ks)"
    using fetch_all_keys [OF docs] by simp
  have "assign_validation_task req queryset s =
          (fold (\<lambda>doc s'. save doc (tags_add doc (cd_tag cd) s')) docs ?s2,
           [Success (''Validation task created for '' @ str_nat (length docs) @ '' documents.'')],
           HttpResponseRedirect ''.'')"
    unfolding assign_created [OF ap fc] Document_objects_filter_pk_in_def ids
    by (simp add: get_prep_lookup_map docs)
  then show ?thesis
    unfolding loop docs_fun len by (simp add: s2 keys)
qed

lemma is_valid_AssignValidationTaskForm:
  "is_valid (AssignValidationTaskForm s data) \<longleftrightarrow>
     POST_selected_action data \<noteq> []
     \<and> (\<exists>k. POST_assigned_to data = Some k \<and> k \<in> dom (users s))
     \<and> (\<exists>k. POST_tag data = Some k \<and> k \<in> dom (tags s))
     \<and> (\<forall>x. POST_note data = Some x \<longrightarrow> CHR 0x00 \<notin> set (strip x))"
proof -
  have nt: "(\<exists>n. CharField_clean False (POST_note data) = Inr n)
                \<longleftrightarrow> (\<forall>x. POST_note data = Some x \<longrightarrow> CHR 0x00 \<notin> set (strip x))"
    by (auto simp: CharField_clean_def Let_def split: option.splits)
  have choice: "(\<exists>x. ModelChoiceField_clean m raw = Inr x)
                  \<longleftrightarrow> (\<exists>k. raw = Some k \<and> k \<in> dom m)" for m :: "pk \<rightharpoonup> 'r" and raw
    by (auto simp: ModelChoiceField_clean_def split: option.splits)
  have "is_valid (AssignValidationTaskForm s data) \<longleftrightarrow>
     POST_selected_action data \<noteq> []
     \<and> (\<exists>u. ModelChoiceField_clean (users s) (POST_assigned_to data) = Inr u)
     \<and> (\<exists>t. ModelChoiceField_clean (tags s) (POST_tag data) = Inr t)
     \<and> (\<exists>n. CharField_clean False (POST_note data) = Inr n)"
    unfolding is_valid_iff full_clean_Inr
    by (metis cleaned_data.select_convs)
  then show ?thesis unfolding nt choice .
qed

lemma assign_invalid:
  assumes "POST_apply (POST req)"
    and "\<not> is_valid (AssignValidationTaskForm s (POST req))"
  shows "assign_validation_task req queryset s
           = (s, [], render_form (AssignValidationTaskForm s (POST req)) queryset)"
  using assms
  by (cases "full_clean s (POST req)")
     (simp_all add: assign_validation_task_def AssignValidationTaskForm_def)

lemma errors_invalid:
  "\<not> is_valid (AssignValidationTaskForm s data) \<Longrightarrow> errors (AssignValidationTaskForm s data) \<noteq> []"
  by (cases "full_clean s data") (simp_all add: AssignValidationTaskForm_def full_clean_Inl)

lemma full_clean_cong:
  "users s' = users s \<Longrightarrow> tags s' = tags s \<Longrightarrow> full_clean s' data = full_clean s data"
  by (simp add: full_clean_def)

lemma missing_field_errors:
  "POST_tag data = None \<Longrightarrow>
     (''tag'', Required) \<in> set (errors (AssignValidationTaskForm s data))"
  "POST_selected_action data = [] \<Longrightarrow>
     (''_selected_action'', Required) \<in> set (errors (AssignValidationTaskForm s data))"
  by (auto simp: AssignValidationTaskForm_def full_clean_def Let_def field_errors_def
      ModelChoiceField_clean_def CharField_clean_list_def split: sum.splits)

lemma related_add_idem: "related_add t (related_add t ks) = related_add t ks"
  by (simp add: related_add_def)

lemma tagged_idem: "tagged t (tagged t r) = tagged t r"
  by (simp add: tagged_def related_add_idem)

lemma count_related_add:
  "count_list (related_add t ks) t = (if t \<in> set ks then count_list ks t else 1)"
  by (simp add: related_add_def count_list_0_iff)

lemma str_nat_0: "str_nat 0 = ''0''"
  by (simp add: str_nat.simps)

text \<open>The form on the example submission and on variants of it.\<close>

lemma example_valid: "full_clean example_db example_post
   = Inr \<lparr>cd_assigned_to = bob, cd_tag = urgent, cd_note = ''please review''\<rparr>"
  by (simp add: full_clean_def example_db_def example_post_def CharField_clean_list_def
      ModelChoiceField_clean_def CharField_clean_def strip_def isspace_def field_errors_def
      bob_def urgent_def)

lemma blank_assignee_errors:
  "full_clean example_db (example_post\<lparr>POST_assigned_to := None\<rparr>) = Inl [(''assigned_to'', Required)]"
  by (simp add: full_clean_def example_db_def example_post_def CharField_clean_list_def
      ModelChoiceField_clean_def CharField_clean_def strip_def isspace_def field_errors_def
      bob_def urgent_def)

lemma no_tag_errors:
  "full_clean example_db (example_post\<lparr>POST_tag := None\<rparr>) = Inl [(''tag'', Required)]"
  by (simp add: full_clean_def example_db_def example_post_def CharField_clean_list_def
      ModelChoiceField_clean_def CharField_clean_def strip_def isspace_def field_errors_def
      bob_def urgent_def)

lemma unresolved_valid:
  "full_clean example_db (example_post\<lparr>POST_selected_action := [Int_text 998, Int_text 999]\<rparr>)
     = Inr \<lparr>cd_assigned_to = bob, cd_tag = urgent, cd_note = ''please review''\<rparr>"
  by (simp add: full_clean_def example_db_def example_post_def CharField_clean_list_def
      ModelChoiceField_clean_def CharField_clean_def strip_def isspace_def field_errors_def
      bob_def urgent_def)

lemma no_ids_errors:
  "full_clean example_db (example_post\<lparr>POST_selected_action := []\<rparr>)
     = Inl [(''_selected_action'', Required)]"
  by (simp add: full_clean_def example_db_def example_post_def CharField_clean_list_def
      ModelChoiceField_clean_def CharField_clean_def strip_def isspace_def field_errors_def
      bob_def urgent_def)


lemma bad_id_valid:
  "full_clean example_db (example_post\<lparr>POST_selected_action := [Int_text 1, Other_text ''abc'']\<rparr>)
     = Inr \<lparr>cd_assigned_to = bob, cd_tag = urgent, cd_note = ''please review''\<rparr>"
  by (simp add: full_clean_def example_db_def example_post_def CharField_clean_list_def
      ModelChoiceField_clean_def CharField_clean_def strip_def isspace_def field_errors_def
      bob_def urgent_def)

lemma big_id_valid:
  "full_clean example_db
     (example_post\<lparr>POST_selected_action := [Int_text 1, Int_text 9223372036854775808]\<rparr>)
     = Inr \<lparr>cd_assigned_to = bob, cd_tag = urgent, cd_note = ''please review''\<rparr>"
  by (simp add: full_clean_def example_db_def example_post_def CharField_clean_list_def
      ModelChoiceField_clean_def CharField_clean_def strip_def isspace_def field_errors_def
      bob_def urgent_def)

lemma example_new_task:
  "new_task \<lparr>request_user = alice, POST = p\<rparr>
     \<lparr>cd_assigned_to = bob, cd_tag = urgent, cd_note = ''please review''\<rparr> example_db
   = \<lparr>task_pk = 4, assigned_to = 2, created_by = 1, task_tag = Some 7,
      task_note = ''please review'', task_due_date = Some (2024, 6, 1),
      task_documents = []\<rparr>"
  by (simp add: new_task_def next_pk_def example_db_def old_task_def alice_def bob_def
      urgent_def)

lemma usable_ids:
  assumes "\<forall>v \<in> set ids. \<exists>k. v = Int_text k \<and> sqlite_integer k"
  obtains ks where "ids = map Int_text ks" and "list_all sqlite_integer ks"
    and "set ks = {k. Int_text k \<in> set ids}"
proof -
  have "\<exists>ks. ids = map Int_text ks \<and> list_all sqlite_integer ks" using assms
  proof (induction ids)
    case Nil
    then show ?case by simp
  next
    case (Cons v vs)
    then obtain k where k: "v = Int_text k" "sqlite_integer k" by auto
    from Cons obtain ks where "vs = map Int_text ks" "list_all sqlite_integer ks" by auto
    with k have "v # vs = map Int_text (k # ks) \<and> list_all sqlite_integer (k # ks)" by simp
    then show ?case by (rule exI [of _ "k # ks"])
  qed
  then obtain ks where ks: "ids = map Int_text ks" "list_all sqlite_integer ks" by blast
  then have "set ks = {k. Int_text k \<in> set ids}" by auto
  with ks show ?thesis using that by blast
qed

lemma assign_redirectD:
  assumes "assign_validation_task req queryset s = (s', msgs, HttpResponseRedirect u)"
  shows "POST_apply (POST req) \<and> is_valid (AssignValidationTaskForm s (POST req))
         \<and> (\<exists>ks. POST_selected_action (POST req) = map Int_text ks
                  \<and> list_all sqlite_integer ks)"
proof -
  have ap: "POST_apply (POST req)"
    using assms by (auto simp: assign_validation_task_def render_form_def split: if_splits)
  have valid: "is_valid (AssignValidationTaskForm s (POST req))"
  proof (rule ccontr)
    assume "\<not> is_valid (AssignValidationTaskForm s (POST req))"
    then show False using assms ap by (simp add: assign_invalid render_form_def)
  qed
  then obtain cd where fc: "full_clean s (POST req) = Inr cd"
    by (auto simp: is_valid_iff)
  obtain ks where ks: "POST_selected_action (POST req) = map Int_text ks"
    using assms unfolding assign_created [OF ap fc] Document_objects_filter_pk_in_def
    by (cases "get_prep_lookup (POST_selected_action (POST req))")
       (auto simp: get_prep_lookup_Inr)
  have "list_all sqlite_integer ks"
  proof (rule ccontr)
    assume "\<not> list_all sqlite_integer ks"
    then show False using assms by (simp add: assign_overflow_error [OF ap fc ks])
  qed
  with ap valid ks show ?thesis by blast
qed

lemma assign_tasks_extend:
  "\<exists>rest. tasks (fst (assign_validation_task req queryset s)) = tasks s @ rest"
proof (cases "POST_apply (POST req)")
  case False
  then show ?thesis by (simp add: assign_validation_task_def)
next
  case ap: True
  show ?thesis
  proof (cases "is_valid (AssignValidationTaskForm s (POST req))")
    case False
    then show ?thesis using ap by (simp add: assign_invalid)
  next
    case True
    then obtain cd where fc: "full_clean s (POST req) = Inr cd"
      by (auto simp: is_valid_iff)
    show ?thesis
    proof (cases "get_prep_lookup (POST_selected_action (POST req))")
      case (Inl e)
      then show ?thesis
        unfolding assign_created [OF ap fc] Document_objects_filter_pk_in_def by simp
    next
      case (Inr ks)
      then have ids: "POST_selected_action (POST req) = map Int_text ks"
        by (simp add: get_prep_lookup_Inr)
      show ?thesis
      proof (cases "list_all sqlite_integer ks")
        case True
        show ?thesis unfolding assign_valid [OF ap fc ids True] by simp
      next
        case False
        show ?thesis unfolding assign_overflow_error [OF ap fc ids False] by simp
      qed
    qed
  qed
qed

lemma assign_valid_tasks:
  assumes ap: "POST_apply (POST req)"
    and fc: "full_clean s (POST req) = Inr cd"
  shows "\<exists>ds. tasks (fst (assign_validation_task req queryset s))
               = tasks s @ [(new_task req cd s)\<lparr>task_documents := ds\<rparr>]"
proof (cases "get_prep_lookup (POST_selected_action (POST req))")
  case (Inl e)
  have "tasks (fst (assign_validation_task req queryset s))
          = tasks s @ [(new_task req cd s)\<lparr>task_documents := []\<rparr>]"
    unfolding assign_created [OF ap fc] Document_objects_filter_pk_in_def Inl
    by (simp add: new_task_def)
  then show ?thesis by blast
next
  case (Inr ks)
  then have ids: "POST_selected_action (POST req) = map Int_text ks"
    by (simp add: get_prep_lookup_Inr)
  show ?thesis
  proof (cases "list_all sqlite_integer ks")
    case True
    have "tasks (fst (assign_validation_task req queryset s))
            = tasks s @ [(new_task req cd s)
                \<lparr>task_documents := filter (\<lambda>k. documents s k \<noteq> None) (remdups ks)\<rparr>]"
      unfolding assign_valid [OF ap fc ids True] by simp
    then show ?thesis by blast
  next
    case False
    have "tasks (fst (assign_validation_task req queryset s))
            = tasks s @ [(new_task req cd s)\<lparr>task_documents := []\<rparr>]"
      unfolding assign_overflow_error [OF ap fc ids False] by (simp add: new_task_def)
    then show ?thesis by blast
  qed
qed

lemma root_no_tag_errors:
  "full_clean example_db (example_post\<lparr>POST_tag := None, POST_selected_action := [Int_text 1]\<rparr>)
     = Inl [(''tag'', Required)]"
  by (simp add: full_clean_def example_db_def example_post_def CharField_clean_list_def
      ModelChoiceField_clean_def CharField_clean_def strip_def isspace_def field_errors_def
      bob_def urgent_def)


section \<open>The task list and the permission to add a task\<close>

text \<open>
  C7: \<^verbatim>\<open>has_add_permission\<close> (the spec's canCreate) is true if and only if the
  requester is a superuser or belongs to the group Staff, and false for every other
  requester.
\<close>

theorem C7_has_add_permission:
  "has_add_permission req
     = (is_superuser (snd (request_user req)) \<or> ''Staff'' \<in> set (groups (snd (request_user req))))"
  by (simp add: has_add_permission_def groups_filter_name_exists_def)

theorem C7_has_add_permission_witness:
  "has_add_permission \<lparr>request_user = alice, POST = example_post\<rparr>
   \<and> has_add_permission \<lparr>request_user = root, POST = example_post\<rparr>
   \<and> \<not> has_add_permission \<lparr>request_user = bob, POST = example_post\<rparr>"
  using C7_has_add_permission [of "\<lparr>request_user = alice, POST = example_post\<rparr>"]
    C7_has_add_permission [of "\<lparr>request_user = root, POST = example_post\<rparr>"]
    C7_has_add_permission [of "\<lparr>request_user = bob, POST = example_post\<rparr>"]
  by (simp add: alice_def bob_def root_def)

text \<open>
  C2: \<^verbatim>\<open>get_queryset\<close> (the spec's listVisibleTasks) returns all tasks to a
  superuser; to a requester in the group Staff who is no superuser, exactly the tasks
  that the requester created or that are assigned to the requester; and the empty
  sequence to any other requester.
\<close>

theorem C2_get_queryset:
  "(is_superuser (snd (request_user req)) \<longrightarrow> get_queryset req s = tasks s)
   \<and> (\<not> is_superuser (snd (request_user req)) \<and> ''Staff'' \<in> set (groups (snd (request_user req)))
        \<longrightarrow> get_queryset req s
              = filter (\<lambda>t. created_by t = fst (request_user req)
                           \<or> assigned_to t = fst (request_user req)) (tasks s))
   \<and> (\<not> is_superuser (snd (request_user req)) \<and> ''Staff'' \<notin> set (groups (snd (request_user req)))
        \<longrightarrow> get_queryset req s = [])"
  by (simp add: get_queryset_def groups_filter_name_exists_def)

theorem C2_get_queryset_witness:
  "get_queryset \<lparr>request_user = root, POST = example_post\<rparr> example_db
     = [old_task 1 1 2, old_task 2 3 3, old_task 3 2 1]
   \<and> get_queryset \<lparr>request_user = alice, POST = example_post\<rparr> example_db
     = [old_task 1 1 2, old_task 3 2 1]
   \<and> get_queryset \<lparr>request_user = bob, POST = example_post\<rparr> example_db = []"
  using C2_get_queryset [of "\<lparr>request_user = root, POST = example_post\<rparr>" example_db]
    C2_get_queryset [of "\<lparr>request_user = alice, POST = example_post\<rparr>" example_db]
    C2_get_queryset [of "\<lparr>request_user = bob, POST = example_post\<rparr>" example_db]
  by (simp add: alice_def bob_def root_def example_db_def old_task_def)


section \<open>The assignment action\<close>

text \<open>
  C1, as the code has it: for every submission in the apply phase whose form validates
  and whose submitted ids are all integers that fit the database's 64-bit keys, the
  action creates exactly one validation task; the documents linked to it are exactly
  the submitted ids that resolve to an existing document; the count in the success
  message is the size of that set; such ids that do not resolve are dropped and do not
  make the action fail.
\<close>

theorem C1_apply_links_resolved_documents:
  assumes "POST_apply (POST req)"
    and "is_valid (AssignValidationTaskForm s (POST req))"
    and "\<forall>v \<in> set (POST_selected_action (POST req)). \<exists>k. v = Int_text k \<and> sqlite_integer k"
    and "assign_validation_task req queryset s = (s', msgs, resp)"
  shows "\<exists>task. tasks s' = tasks s @ [task]
           \<and> set (task_documents task)
               = {k. Int_text k \<in> set (POST_selected_action (POST req))} \<inter> dom (documents s)
           \<and> distinct (task_documents task)
           \<and> msgs = [Success (''Validation task created for ''
                @ str_nat (card ({k. Int_text k \<in> set (POST_selected_action (POST req))}
                                 \<inter> dom (documents s)))
                @ '' documents.'')]
           \<and> resp = HttpResponseRedirect ''.''"
proof -
  from assms(2) obtain cd where fc: "full_clean s (POST req) = Inr cd"
    by (auto simp: is_valid_iff)
  from assms(3) obtain ks where ids: "POST_selected_action (POST req) = map Int_text ks"
    and fits: "list_all sqlite_integer ks"
    and ks: "set ks = {k. Int_text k \<in> set (POST_selected_action (POST req))}"
    by (rule usable_ids)
  show ?thesis
    using assms(4) unfolding assign_valid [OF assms(1) fc ids fits] ks [symmetric]
    by (auto simp: dom_def)
qed

theorem C1_apply_links_resolved_documents_witness:
  "POST_apply (POST example_request)
   \<and> is_valid (AssignValidationTaskForm example_db (POST example_request))
   \<and> POST_selected_action (POST example_request) = [Int_text 1, Int_text 2, Int_text 999]
   \<and> sqlite_integer 1 \<and> sqlite_integer 2 \<and> sqlite_integer 999
   \<and> (\<exists>task. tasks (fst (assign_validation_task example_request [1, 2] example_db))
                 = tasks example_db @ [task]
         \<and> set (task_documents task) = {1, 2}
         \<and> fst (snd (assign_validation_task example_request [1, 2] example_db))
             = [Success ''Validation task created for 2 documents.'']
         \<and> snd (snd (assign_validation_task example_request [1, 2] example_db))
             = HttpResponseRedirect ''.'')"
proof -
  have h1: "POST_apply (POST example_request)"
    by (simp add: example_request_def example_post_def)
  have h2: "is_valid (AssignValidationTaskForm example_db (POST example_request))"
    by (simp add: example_request_def AssignValidationTaskForm_def example_valid)
  have h3: "\<forall>v \<in> set (POST_selected_action (POST example_request)).
              \<exists>k. v = Int_text k \<and> sqlite_integer k"
    by (simp add: example_request_def example_post_def sqlite_integer_def)
  have h4: "assign_validation_task example_request [1, 2] example_db
      = (fst (assign_validation_task example_request [1, 2] example_db),
         fst (snd (assign_validation_task example_request [1, 2] example_db)),
         snd (snd (assign_validation_task example_request [1, 2] example_db)))"
    by simp
  have ids: "{k. Int_text k \<in> set (POST_selected_action (POST example_request))}
               \<inter> dom (documents example_db) = {1, 2}"
    by (auto simp: example_request_def example_post_def example_db_def)
  have two: "str_nat (card {1, 2 :: int}) = ''2''" by (simp add: str_nat.simps)
  have h5: "POST_selected_action (POST example_request) = [Int_text 1, Int_text 2, Int_text 999]"
    "sqlite_integer 1" "sqlite_integer 2" "sqlite_integer 999"
    by (simp_all add: example_request_def example_post_def sqlite_integer_def)
  show ?thesis
    using h1 h2 h5 C1_apply_links_resolved_documents [OF h1 h2 h3 h4]
    unfolding ids two by simp blast
qed

text \<open>
  Two valid submissions on which the action fails: one with the id \<^verbatim>\<open>'abc'\<close> next to
  the id of an existing document, one with the id 9223372036854775808 next to it. In
  both the task row is written, no document is linked to it, no message is queued, and
  the call ends with an exception.
\<close>

theorem C1_malformed_id_counterexample:
  "POST_apply (example_post\<lparr>POST_selected_action := [Int_text 1, Other_text ''abc'']\<rparr>)
   \<and> is_valid (AssignValidationTaskForm example_db
                  (example_post\<lparr>POST_selected_action := [Int_text 1, Other_text ''abc'']\<rparr>))
   \<and> documents example_db 1 = Some \<lparr>title = ''invoice'', doc_tags = []\<rparr>
   \<and> assign_validation_task
         \<lparr>request_user = alice,
          POST = example_post\<lparr>POST_selected_action := [Int_text 1, Other_text ''abc'']\<rparr>\<rparr>
         [1, 2] example_db
       = (example_db\<lparr>tasks := tasks example_db @
             [\<lparr>task_pk = 4, assigned_to = 2, created_by = 1, task_tag = Some 7,
               task_note = ''please review'', task_due_date = Some (2024, 6, 1),
               task_documents = []\<rparr>]\<rparr>,
          [], Raised ValueError)
   \<and> is_valid (AssignValidationTaskForm example_db
        (example_post\<lparr>POST_selected_action := [Int_text 1, Int_text 9223372036854775808]\<rparr>))
   \<and> assign_validation_task
         \<lparr>request_user = alice,
          POST = example_post\<lparr>POST_selected_action
                               := [Int_text 1, Int_text 9223372036854775808]\<rparr>\<rparr>
         [1, 2] example_db
       = (example_db\<lparr>tasks := tasks example_db @
             [\<lparr>task_pk = 4, assigned_to = 2, created_by = 1, task_tag = Some 7,
               task_note = ''please review'', task_due_date = Some (2024, 6, 1),
               task_documents = []\<rparr>]\<rparr>,
          [], Raised OverflowError)"
proof -
  let ?p1 = "example_post\<lparr>POST_selected_action := [Int_text 1, Other_text ''abc'']\<rparr>"
  let ?p2 = "example_post\<lparr>POST_selected_action
                             := [Int_text 1, Int_text 9223372036854775808]\<rparr>"
  let ?r1 = "\<lparr>request_user = alice, POST = ?p1\<rparr>"
  let ?r2 = "\<lparr>request_user = alice, POST = ?p2\<rparr>"
  have ap: "POST_apply (POST ?r1)" "POST_apply (POST ?r2)"
    by (simp_all add: example_post_def)
  have fc1: "full_clean example_db (POST ?r1)
               = Inr \<lparr>cd_assigned_to = bob, cd_tag = urgent, cd_note = ''please review''\<rparr>"
    by (simp add: bad_id_valid)
  have fc2: "full_clean example_db (POST ?r2)
               = Inr \<lparr>cd_assigned_to = bob, cd_tag = urgent, cd_note = ''please review''\<rparr>"
    by (simp add: big_id_valid)
  have bad: "Other_text ''abc'' \<in> set (POST_selected_action (POST ?r1))" by simp
  have ids: "POST_selected_action (POST ?r2) = map Int_text [1, 9223372036854775808]" by simp
  have big: "\<not> list_all sqlite_integer [1, 9223372036854775808]"
    by (simp add: sqlite_integer_def)
  have r1: "assign_validation_task ?r1 [1, 2] example_db
       = (example_db\<lparr>tasks := tasks example_db @
             [\<lparr>task_pk = 4, assigned_to = 2, created_by = 1, task_tag = Some 7,
               task_note = ''please review'', task_due_date = Some (2024, 6, 1),
               task_documents = []\<rparr>]\<rparr>,
          [], Raised ValueError)"
    unfolding assign_value_error [OF ap(1) fc1 bad] example_new_task by simp
  have r2: "assign_validation_task ?r2 [1, 2] example_db
       = (example_db\<lparr>tasks := tasks example_db @
             [\<lparr>task_pk = 4, assigned_to = 2, created_by = 1, task_tag = Some 7,
               task_note = ''please review'', task_due_date = Some (2024, 6, 1),
               task_documents = []\<rparr>]\<rparr>,
          [], Raised OverflowError)"
    unfolding assign_overflow_error [OF ap(2) fc2 ids big] example_new_task by simp
  have v1: "is_valid (AssignValidationTaskForm example_db ?p1)"
    by (simp add: AssignValidationTaskForm_def bad_id_valid)
  have v2: "is_valid (AssignValidationTaskForm example_db ?p2)"
    by (simp add: AssignValidationTaskForm_def big_id_valid)
  have d: "documents example_db 1 = Some \<lparr>title = ''invoice'', doc_tags = []\<rparr>"
    by (simp add: example_db_def)
  show ?thesis using ap(1) v1 v2 d r1 r2 by simp
qed

text \<open>
  C5: an apply-phase submission that fails validation gets the page with the form and
  its field errors again; no task is created, no document is linked or tagged, no
  message is queued: the database is the one before the call.
\<close>

theorem C5_invalid_submission_changes_nothing:
  assumes "POST_apply (POST req)"
    and "\<not> is_valid (AssignValidationTaskForm s (POST req))"
  shows "assign_validation_task req queryset s
           = (s, [], render_form (AssignValidationTaskForm s (POST req)) queryset)
         \<and> errors (AssignValidationTaskForm s (POST req)) \<noteq> []"
  using assms by (simp add: assign_invalid errors_invalid)

theorem C5_invalid_submission_changes_nothing_witness:
  "POST_apply (POST (example_request\<lparr>POST := example_post\<lparr>POST_assigned_to := None\<rparr>\<rparr>))
   \<and> \<not> is_valid (AssignValidationTaskForm example_db (example_post\<lparr>POST_assigned_to := None\<rparr>))
   \<and> assign_validation_task (example_request\<lparr>POST := example_post\<lparr>POST_assigned_to := None\<rparr>\<rparr>)
         [1, 2] example_db
       = (example_db, [], render_form (Bound (Inl [(''assigned_to'', Required)])) [1, 2])"
proof -
  let ?req = "example_request\<lparr>POST := example_post\<lparr>POST_assigned_to := None\<rparr>\<rparr>"
  have h1: "POST_apply (POST ?req)" by (simp add: example_post_def)
  have h2: "\<not> is_valid (AssignValidationTaskForm example_db (POST ?req))"
    by (simp add: AssignValidationTaskForm_def blank_assignee_errors)
  show ?thesis
    using h1 h2 C5_invalid_submission_changes_nothing [OF h1 h2, of "[1, 2]"]
    by (simp add: AssignValidationTaskForm_def blank_assignee_errors)
qed

text \<open>
  C4, as the code has it: the tag is a required field of the form. Every apply-phase
  submission without a tag is answered with the page and the error \<open>Required\<close> on the
  field \<^verbatim>\<open>tag\<close>, and the database is unchanged, whatever the other fields hold.
\<close>

theorem C4_tag_is_required:
  assumes "POST_apply (POST req)"
    and "POST_tag (POST req) = None"
  shows "assign_validation_task req queryset s
           = (s, [], render_form (AssignValidationTaskForm s (POST req)) queryset)
         \<and> (''tag'', Required) \<in> set (errors (AssignValidationTaskForm s (POST req)))"
proof -
  have "\<not> is_valid (AssignValidationTaskForm s (POST req))"
    using assms(2) by (simp add: is_valid_AssignValidationTaskForm)
  then show ?thesis
    using assms by (simp add: assign_invalid missing_field_errors)
qed

theorem C4_tag_is_required_witness:
  "POST_apply (example_post\<lparr>POST_tag := None\<rparr>)
   \<and> POST_tag (example_post\<lparr>POST_tag := None\<rparr>) = None
   \<and> tasks (fst (assign_validation_task
                    \<lparr>request_user = alice, POST = example_post\<lparr>POST_tag := None\<rparr>\<rparr>
                    [1, 2] example_db)) = tasks example_db
   \<and> (''tag'', Required)
       \<in> set (errors (AssignValidationTaskForm example_db (example_post\<lparr>POST_tag := None\<rparr>)))"
proof -
  let ?req = "\<lparr>request_user = alice, POST = example_post\<lparr>POST_tag := None\<rparr>\<rparr>"
  have h1: "POST_apply (POST ?req)" by (simp add: example_post_def)
  have h2: "POST_tag (POST ?req) = None" by simp
  show ?thesis
    using h1 h2 C4_tag_is_required [OF h1 h2, of "[1, 2]" example_db] by simp
qed

text \<open>
  The example submission without its tag, with a valid assignee and three document ids:
  no task is created, and the form comes back with a field error.
\<close>

theorem C4_no_tag_counterexample:
  "POST_assigned_to (example_post\<lparr>POST_tag := None\<rparr>) = Some 2
   \<and> users example_db 2 = Some (snd bob)
   \<and> POST_selected_action (example_post\<lparr>POST_tag := None\<rparr>) = [Int_text 1, Int_text 2, Int_text 999]
   \<and> assign_validation_task
         \<lparr>request_user = alice, POST = example_post\<lparr>POST_tag := None\<rparr>\<rparr> [1, 2] example_db
       = (example_db, [], render_form (Bound (Inl [(''tag'', Required)])) [1, 2])"
  by (simp add: assign_validation_task_def AssignValidationTaskForm_def no_tag_errors)
     (simp add: example_post_def example_db_def)

text \<open>
  C9, as the code has it: when the form validates (so the id list is not empty), every
  submitted id is an integer that fits the database's 64-bit keys, and none of them
  resolves to a document, the action still succeeds: one task with no linked document,
  no document changed, and a reported count of 0. An empty id list does not validate:
  the required field \<^verbatim>\<open>_selected_action\<close> rejects it, the page comes back with that
  field error and the database is unchanged.
\<close>

theorem C9_unresolved_ids:
  "(POST_apply (POST req) \<and> is_valid (AssignValidationTaskForm s (POST req))
      \<and> (\<forall>v \<in> set (POST_selected_action (POST req)).
            \<exists>k. v = Int_text k \<and> sqlite_integer k \<and> documents s k = None)
    \<longrightarrow> POST_selected_action (POST req) \<noteq> []
        \<and> (\<exists>task. tasks (fst (assign_validation_task req queryset s)) = tasks s @ [task]
                   \<and> task_documents task = [])
        \<and> documents (fst (assign_validation_task req queryset s)) = documents s
        \<and> snd (assign_validation_task req queryset s)
            = ([Success ''Validation task created for 0 documents.''],
               HttpResponseRedirect ''.''))
   \<and> (POST_apply (POST req) \<and> POST_selected_action (POST req) = []
    \<longrightarrow> assign_validation_task req queryset s
          = (s, [], render_form (AssignValidationTaskForm s (POST req)) queryset)
        \<and> (''_selected_action'', Required)
            \<in> set (errors (AssignValidationTaskForm s (POST req))))"
proof (intro conjI impI)
  assume a: "POST_apply (POST req) \<and> is_valid (AssignValidationTaskForm s (POST req))
      \<and> (\<forall>v \<in> set (POST_selected_action (POST req)).
            \<exists>k. v = Int_text k \<and> sqlite_integer k \<and> documents s k = None)"
  then obtain cd where fc: "full_clean s (POST req) = Inr cd"
    by (auto simp: is_valid_iff)
  have ap: "POST_apply (POST req)" using a by simp
  have "\<forall>v \<in> set (POST_selected_action (POST req)). \<exists>k. v = Int_text k \<and> sqlite_integer k"
    using a by blast
  then obtain ks where ids: "POST_selected_action (POST req) = map Int_text ks"
    and fits: "list_all sqlite_integer ks"
    and ks: "set ks = {k. Int_text k \<in> set (POST_selected_action (POST req))}"
    by (rule usable_ids)
  have nores: "\<And>k. k \<in> set ks \<Longrightarrow> documents s k = None"
    using a ks by auto
  have none: "set ks \<inter> dom (documents s) = {}"
    using nores by (auto simp: dom_def)
  have flt: "filter (\<lambda>k. documents s k \<noteq> None) (remdups ks) = []"
    using nores by (simp add: filter_empty_conv)
  have same: "(\<lambda>k. if k \<in> set ks
                    then map_option (tagged (fst (cd_tag cd))) (documents s k)
                    else documents s k) = documents s"
    using nores by (auto simp: fun_eq_iff)
  show "POST_selected_action (POST req) \<noteq> []"
    using a by (simp add: is_valid_AssignValidationTaskForm)
  show "\<exists>task. tasks (fst (assign_validation_task req queryset s)) = tasks s @ [task]
                   \<and> task_documents task = []"
    unfolding assign_valid [OF ap fc ids fits] flt by simp
  show "documents (fst (assign_validation_task req queryset s)) = documents s"
    unfolding assign_valid [OF ap fc ids fits] same by simp
  show "snd (assign_validation_task req queryset s)
            = ([Success ''Validation task created for 0 documents.''],
               HttpResponseRedirect ''.'')"
    unfolding assign_valid [OF ap fc ids fits] none by (simp add: str_nat_0)
next
  assume b: "POST_apply (POST req) \<and> POST_selected_action (POST req) = []"
  then have "\<not> is_valid (AssignValidationTaskForm s (POST req))"
    by (simp add: is_valid_AssignValidationTaskForm)
  then show "assign_validation_task req queryset s
          = (s, [], render_form (AssignValidationTaskForm s (POST req)) queryset)"
    using b by (simp add: assign_invalid)
next
  assume b: "POST_apply (POST req) \<and> POST_selected_action (POST req) = []"
  then show "(''_selected_action'', Required)
            \<in> set (errors (AssignValidationTaskForm s (POST req)))"
    by (simp add: missing_field_errors)
qed

theorem C9_unresolved_ids_witness:
  "(POST_apply (example_post\<lparr>POST_selected_action := [Int_text 998, Int_text 999]\<rparr>)
    \<and> is_valid (AssignValidationTaskForm example_db
                   (example_post\<lparr>POST_selected_action := [Int_text 998, Int_text 999]\<rparr>))
    \<and> sqlite_integer 998 \<and> documents example_db 998 = None
    \<and> sqlite_integer 999 \<and> documents example_db 999 = None
    \<and> snd (assign_validation_task
              \<lparr>request_user = alice,
               POST = example_post\<lparr>POST_selected_action := [Int_text 998, Int_text 999]\<rparr>\<rparr>
              [1, 2] example_db)
        = ([Success ''Validation task created for 0 documents.''], HttpResponseRedirect ''.''))
   \<and> (POST_apply (example_post\<lparr>POST_selected_action := []\<rparr>)
    \<and> POST_selected_action (example_post\<lparr>POST_selected_action := []\<rparr>) = []
    \<and> fst (assign_validation_task
              \<lparr>request_user = alice, POST = example_post\<lparr>POST_selected_action := []\<rparr>\<rparr>
              [1, 2] example_db) = example_db)"
proof -
  let ?r1 = "\<lparr>request_user = alice,
             POST = example_post\<lparr>POST_selected_action := [Int_text 998, Int_text 999]\<rparr>\<rparr>"
  let ?r2 = "\<lparr>request_user = alice, POST = example_post\<lparr>POST_selected_action := []\<rparr>\<rparr>"
  have h1: "POST_apply (POST ?r1)" "POST_apply (POST ?r2)" by (simp_all add: example_post_def)
  have h2: "is_valid (AssignValidationTaskForm example_db (POST ?r1))"
    by (simp add: AssignValidationTaskForm_def unresolved_valid)
  have h3: "\<forall>v \<in> set (POST_selected_action (POST ?r1)).
              \<exists>k. v = Int_text k \<and> sqlite_integer k \<and> documents example_db k = None"
    by (simp add: example_db_def sqlite_integer_def)
  have h4: "POST_selected_action (POST ?r2) = []" by simp
  have h5: "sqlite_integer 998" "documents example_db 998 = None"
    "sqlite_integer 999" "documents example_db 999 = None"
    by (simp_all add: example_db_def sqlite_integer_def)
  show ?thesis
    using h1 h2 h3 h4 h5 C9_unresolved_ids [of ?r1 example_db "[1, 2]"]
      C9_unresolved_ids [of ?r2 example_db "[1, 2]"]
    by simp
qed

text \<open>
  The example submission with an empty id list, a valid assignee and a valid tag: no
  task is created.
\<close>

theorem C9_empty_id_list_counterexample:
  "POST_assigned_to (example_post\<lparr>POST_selected_action := []\<rparr>) = Some 2
   \<and> users example_db 2 = Some (snd bob)
   \<and> POST_tag (example_post\<lparr>POST_selected_action := []\<rparr>) = Some 7
   \<and> tags example_db 7 = Some (snd urgent)
   \<and> assign_validation_task
         \<lparr>request_user = alice, POST = example_post\<lparr>POST_selected_action := []\<rparr>\<rparr>
         [1, 2] example_db
       = (example_db, [], render_form (Bound (Inl [(''_selected_action'', Required)])) [1, 2])"
  by (simp add: assign_validation_task_def AssignValidationTaskForm_def no_ids_errors)
     (simp add: example_post_def example_db_def)

text \<open>
  C3, as the code has it: whenever the form of an apply-phase submission validates, a
  tag was supplied, and the due date of the created task is the due date that this tag
  has in the tag table at that moment. The date is stored in the task row, and no later
  call of the action rewrites the rows of earlier tasks, whatever the tag table holds
  by then. A submission without a tag creates no task, so the action creates no task
  with an unset due date.
\<close>

theorem C3_due_date_of_created_task:
  "(POST_apply (POST req) \<and> is_valid (AssignValidationTaskForm s (POST req))
      \<longrightarrow> (\<exists>task k t.
             tasks (fst (assign_validation_task req queryset s)) = tasks s @ [task]
             \<and> POST_tag (POST req) = Some k \<and> tags s k = Some t
             \<and> task_tag task = Some k
             \<and> task_due_date task = due_date t
             \<and> (\<forall>T req2 queryset2. \<exists>rest.
                   tasks (fst (assign_validation_task req2 queryset2
                                 ((fst (assign_validation_task req queryset s))\<lparr>tags := T\<rparr>)))
                   = tasks s @ [task] @ rest)))
   \<and> (POST_apply (POST req) \<and> POST_tag (POST req) = None
      \<longrightarrow> tasks (fst (assign_validation_task req queryset s)) = tasks s)"
proof (intro conjI impI)
  assume a: "POST_apply (POST req) \<and> is_valid (AssignValidationTaskForm s (POST req))"
  then obtain cd where fc: "full_clean s (POST req) = Inr cd"
    by (auto simp: is_valid_iff)
  have ap: "POST_apply (POST req)" using a by simp
  have tg: "POST_tag (POST req) = Some (fst (cd_tag cd))"
           "tags s (fst (cd_tag cd)) = Some (snd (cd_tag cd))"
    using fc by (simp_all add: full_clean_Inr ModelChoiceField_clean_Inr)
  let ?s' = "fst (assign_validation_task req queryset s)"
  obtain ds where s': "tasks ?s' = tasks s @ [(new_task req cd s)\<lparr>task_documents := ds\<rparr>]"
    using assign_valid_tasks [OF ap fc] by blast
  let ?task = "(new_task req cd s)\<lparr>task_documents := ds\<rparr>"
  have later: "\<exists>rest. tasks (fst (assign_validation_task req2 queryset2 (?s'\<lparr>tags := T\<rparr>)))
                  = tasks s @ [?task] @ rest" for T req2 queryset2
  proof -
    obtain rest where "tasks (fst (assign_validation_task req2 queryset2 (?s'\<lparr>tags := T\<rparr>)))
                         = tasks (?s'\<lparr>tags := T\<rparr>) @ rest"
      using assign_tasks_extend by blast
    then have "tasks (fst (assign_validation_task req2 queryset2 (?s'\<lparr>tags := T\<rparr>)))
                 = tasks s @ [?task] @ rest"
      by (simp add: s')
    then show ?thesis by blast
  qed
  have "tasks ?s' = tasks s @ [?task]
        \<and> POST_tag (POST req) = Some (fst (cd_tag cd))
        \<and> tags s (fst (cd_tag cd)) = Some (snd (cd_tag cd))
        \<and> task_tag ?task = Some (fst (cd_tag cd))
        \<and> task_due_date ?task = due_date (snd (cd_tag cd))
        \<and> (\<forall>T req2 queryset2. \<exists>rest.
              tasks (fst (assign_validation_task req2 queryset2 (?s'\<lparr>tags := T\<rparr>)))
                = tasks s @ [?task] @ rest)"
    using s' tg later by (simp add: new_task_def)
  then show "\<exists>task k t.
             tasks ?s' = tasks s @ [task]
             \<and> POST_tag (POST req) = Some k \<and> tags s k = Some t
             \<and> task_tag task = Some k
             \<and> task_due_date task = due_date t
             \<and> (\<forall>T req2 queryset2. \<exists>rest.
                   tasks (fst (assign_validation_task req2 queryset2 (?s'\<lparr>tags := T\<rparr>)))
                   = tasks s @ [task] @ rest)"
    by blast
next
  assume b: "POST_apply (POST req) \<and> POST_tag (POST req) = None"
  then have "\<not> is_valid (AssignValidationTaskForm s (POST req))"
    by (simp add: is_valid_AssignValidationTaskForm)
  then show "tasks (fst (assign_validation_task req queryset s)) = tasks s"
    using b by (simp add: assign_invalid)
qed

theorem C3_due_date_of_created_task_witness:
  "(POST_apply (POST example_request)
    \<and> is_valid (AssignValidationTaskForm example_db (POST example_request))
    \<and> (\<exists>task. tasks (fst (assign_validation_task example_request [1, 2] example_db))
                 = tasks example_db @ [task]
         \<and> task_tag task = Some 7
         \<and> task_due_date task = Some (2024, 6, 1)))
   \<and> (POST_apply (example_post\<lparr>POST_tag := None\<rparr>)
    \<and> POST_tag (example_post\<lparr>POST_tag := None\<rparr>) = None
    \<and> tasks (fst (assign_validation_task
                     \<lparr>request_user = alice, POST = example_post\<lparr>POST_tag := None\<rparr>\<rparr>
                     [1, 2] example_db)) = tasks example_db)"
proof -
  let ?r2 = "\<lparr>request_user = alice, POST = example_post\<lparr>POST_tag := None\<rparr>\<rparr>"
  have h1: "POST_apply (POST example_request)"
    by (simp add: example_request_def example_post_def)
  have h2: "is_valid (AssignValidationTaskForm example_db (POST example_request))"
    by (simp add: example_request_def AssignValidationTaskForm_def example_valid)
  have h3: "POST_apply (POST ?r2)" "POST_tag (POST ?r2) = None"
    by (simp_all add: example_post_def)
  have tg: "POST_tag (POST example_request) = Some 7"
    "tags example_db 7 = Some \<lparr>tag_name = ''urgent'', due_date = Some (2024, 6, 1)\<rparr>"
    by (simp_all add: example_request_def example_post_def example_db_def urgent_def)
  have first: "\<exists>task. tasks (fst (assign_validation_task example_request [1, 2] example_db))
                 = tasks example_db @ [task]
         \<and> task_tag task = Some 7
         \<and> task_due_date task = Some (2024, 6, 1)"
    using h1 h2 tg C3_due_date_of_created_task [of example_request example_db "[1, 2]"]
    by auto
  have second: "tasks (fst (assign_validation_task ?r2 [1, 2] example_db)) = tasks example_db"
    using h3 C3_due_date_of_created_task [of ?r2 example_db "[1, 2]"] by simp
  show ?thesis using h1 h2 h3 first second by simp
qed

text \<open>
  A submission by a superuser with one existing document, a valid assignee and no tag:
  there is no created task whose due date could be unset.
\<close>

theorem C3_no_tag_no_task_counterexample:
  "POST_apply (example_post\<lparr>POST_tag := None, POST_selected_action := [Int_text 1]\<rparr>)
   \<and> POST_tag (example_post\<lparr>POST_tag := None, POST_selected_action := [Int_text 1]\<rparr>) = None
   \<and> assign_validation_task
         \<lparr>request_user = root,
          POST = example_post\<lparr>POST_tag := None, POST_selected_action := [Int_text 1]\<rparr>\<rparr>
         [1] example_db
       = (example_db, [], render_form (Bound (Inl [(''tag'', Required)])) [1])"
  by (simp add: assign_validation_task_def AssignValidationTaskForm_def root_no_tag_errors)
     (simp add: example_post_def)

text \<open>
  C6: after a successful application every submitted document that exists carries the
  assigned tag; a document that carried the tag before keeps its tag list as it was, so
  a tag held once is held once afterwards; and applying the same submission again
  leaves every document as the first application left it.
\<close>

theorem C6_tag_added_once:
  assumes "POST_apply (POST req)"
    and "is_valid (AssignValidationTaskForm s (POST req))"
    and "POST_tag (POST req) = Some t"
    and "assign_validation_task req queryset s = (s', msgs, HttpResponseRedirect ''.'')"
    and "Int_text k \<in> set (POST_selected_action (POST req))"
    and "documents s k = Some d"
  shows "(\<exists>d'. documents s' k = Some d'
            \<and> t \<in> set (doc_tags d')
            \<and> (t \<in> set (doc_tags d) \<longrightarrow> doc_tags d' = doc_tags d)
            \<and> (count_list (doc_tags d) t \<le> 1 \<longrightarrow> count_list (doc_tags d') t = 1))
         \<and> documents (fst (assign_validation_task req queryset s')) = documents s'"
proof -
  from assms(2) obtain cd where fc: "full_clean s (POST req) = Inr cd"
    by (auto simp: is_valid_iff)
  have tg: "fst (cd_tag cd) = t"
    using fc assms(3) by (simp add: full_clean_Inr ModelChoiceField_clean_Inr)
  obtain ks where ids: "POST_selected_action (POST req) = map Int_text ks"
    and fits: "list_all sqlite_integer ks"
    using assign_redirectD [OF assms(4)] by blast
  have k: "k \<in> set ks" using assms(5) ids by auto
  have s': "s' = fst (assign_validation_task req queryset s)"
    using assms(4) by simp
  have docs': "documents s' = (\<lambda>j. if j \<in> set ks
                            then map_option (tagged t) (documents s j)
                            else documents s j)"
    unfolding s' assign_valid [OF assms(1) fc ids fits] tg by simp
  have same: "users s' = users s" "tags s' = tags s"
    unfolding s' assign_valid [OF assms(1) fc ids fits] by simp_all
  have row: "documents s' k = Some (tagged t d)"
    using k assms(6) by (simp add: docs')
  have cnt: "count_list (doc_tags (tagged t d)) t = 1" if le: "count_list (doc_tags d) t \<le> 1"
  proof (cases "t \<in> set (doc_tags d)")
    case True
    then have "count_list (doc_tags d) t \<noteq> 0" by (simp add: count_list_0_iff)
    with le have "count_list (doc_tags d) t = 1" by arith
    with True show ?thesis by (simp add: tagged_def count_related_add)
  next
    case False
    then show ?thesis by (simp add: tagged_def count_related_add)
  qed
  have mem: "t \<in> set (doc_tags (tagged t d))"
    by (simp add: tagged_def related_add_def)
  have keep: "t \<in> set (doc_tags d) \<Longrightarrow> doc_tags (tagged t d) = doc_tags d"
    by (simp add: tagged_def related_add_def)
  have first: "\<exists>d'. documents s' k = Some d'
            \<and> t \<in> set (doc_tags d')
            \<and> (t \<in> set (doc_tags d) \<longrightarrow> doc_tags d' = doc_tags d)
            \<and> (count_list (doc_tags d) t \<le> 1 \<longrightarrow> count_list (doc_tags d') t = 1)"
    using row mem keep cnt by blast
  have fc': "full_clean s' (POST req) = Inr cd"
    using fc full_clean_cong [OF same, of "POST req"] by simp
  have "documents (fst (assign_validation_task req queryset s'))
          = (\<lambda>j. if j \<in> set ks
                   then map_option (tagged t) (documents s' j)
                   else documents s' j)"
    unfolding assign_valid [OF assms(1) fc' ids fits] tg by simp
  also have "\<dots> = documents s'"
    by (auto simp: fun_eq_iff docs' option.map_comp comp_def tagged_idem)
  finally show ?thesis using first by simp
qed

theorem C6_tag_added_once_witness:
  "POST_apply (POST example_request)
   \<and> is_valid (AssignValidationTaskForm example_db (POST example_request))
   \<and> POST_tag (POST example_request) = Some 7
   \<and> snd (snd (assign_validation_task example_request [1, 2] example_db))
       = HttpResponseRedirect ''.''
   \<and> Int_text 2 \<in> set (POST_selected_action (POST example_request))
   \<and> documents example_db 2 = Some \<lparr>title = ''contract'', doc_tags = [7]\<rparr>
   \<and> (\<exists>d'. documents (fst (assign_validation_task example_request [1, 2] example_db)) 2
                = Some d'
             \<and> doc_tags d' = [7] \<and> count_list (doc_tags d') 7 = 1)"
proof -
  have h1: "POST_apply (POST example_request)"
    by (simp add: example_request_def example_post_def)
  have h2: "is_valid (AssignValidationTaskForm example_db (POST example_request))"
    by (simp add: example_request_def AssignValidationTaskForm_def example_valid)
  have h3: "POST_tag (POST example_request) = Some 7"
    by (simp add: example_request_def example_post_def)
  have fc: "full_clean example_db (POST example_request)
              = Inr \<lparr>cd_assigned_to = bob, cd_tag = urgent, cd_note = ''please review''\<rparr>"
    by (simp add: example_request_def example_valid)
  have ids: "POST_selected_action (POST example_request) = map Int_text [1, 2, 999]"
    by (simp add: example_request_def example_post_def)
  have fits: "list_all sqlite_integer [1, 2, 999]"
    by (simp add: sqlite_integer_def)
  have ok: "snd (snd (assign_validation_task example_request [1, 2] example_db))
              = HttpResponseRedirect ''.''"
    unfolding assign_valid [OF h1 fc ids fits] by simp
  have h4: "assign_validation_task example_request [1, 2] example_db
      = (fst (assign_validation_task example_request [1, 2] example_db),
         fst (snd (assign_validation_task example_request [1, 2] example_db)),
         HttpResponseRedirect ''.'')"
    unfolding ok [symmetric] by simp
  have h5: "Int_text 2 \<in> set (POST_selected_action (POST example_request))"
    by (simp add: example_request_def example_post_def)
  have h6: "documents example_db 2 = Some \<lparr>title = ''contract'', doc_tags = [7]\<rparr>"
    by (simp add: example_db_def)
  show ?thesis
    using h1 h2 h3 ok h5 h6 C6_tag_added_once [OF h1 h2 h3 h4 h5 h6]
    by auto
qed

text \<open>
  C8: the creator of every task that the action creates is the requester, and its
  assignee is the user submitted in the form; in the form-display phase the action
  changes nothing and returns the form with the assignee field pre-filled with the
  requester, next to the selected ids.
\<close>

theorem C8_creator_and_prefilled_assignee:
  "(POST_apply (POST req) \<and> is_valid (AssignValidationTaskForm s (POST req))
      \<longrightarrow> (\<exists>task. tasks (fst (assign_validation_task req queryset s)) = tasks s @ [task]
                  \<and> created_by task = fst (request_user req)
                  \<and> POST_assigned_to (POST req) = Some (assigned_to task)))
   \<and> (\<not> POST_apply (POST req)
      \<longrightarrow> assign_validation_task req queryset s
            = (s, [],
               render_form
                 (Unbound \<lparr>initial_selected_action = POST_selected_action (POST req),
                           initial_assigned_to = request_user req\<rparr>)
                 queryset))"
proof (intro conjI impI)
  assume a: "POST_apply (POST req) \<and> is_valid (AssignValidationTaskForm s (POST req))"
  then obtain cd where fc: "full_clean s (POST req) = Inr cd"
    by (auto simp: is_valid_iff)
  have ap: "POST_apply (POST req)" using a by simp
  have asg: "POST_assigned_to (POST req) = Some (fst (cd_assigned_to cd))"
    using fc by (simp add: full_clean_Inr ModelChoiceField_clean_Inr)
  obtain ds where "tasks (fst (assign_validation_task req queryset s))
                     = tasks s @ [(new_task req cd s)\<lparr>task_documents := ds\<rparr>]"
    using assign_valid_tasks [OF ap fc] by blast
  then show "\<exists>task. tasks (fst (assign_validation_task req queryset s)) = tasks s @ [task]
                  \<and> created_by task = fst (request_user req)
                  \<and> POST_assigned_to (POST req) = Some (assigned_to task)"
    using asg by (simp add: new_task_def)
next
  assume "\<not> POST_apply (POST req)"
  then show "assign_validation_task req queryset s
            = (s, [],
               render_form
                 (Unbound \<lparr>initial_selected_action = POST_selected_action (POST req),
                           initial_assigned_to = request_user req\<rparr>)
                 queryset)"
    by (simp add: assign_validation_task_def)
qed

theorem C8_creator_and_prefilled_assignee_witness:
  "(POST_apply (POST example_request)
    \<and> is_valid (AssignValidationTaskForm example_db (POST example_request))
    \<and> (\<exists>task. tasks (fst (assign_validation_task example_request [1, 2] example_db))
                 = tasks example_db @ [task]
              \<and> created_by task = 1 \<and> assigned_to task = 2))
   \<and> (\<not> POST_apply (example_post\<lparr>POST_apply := False\<rparr>)
    \<and> assign_validation_task
         \<lparr>request_user = alice, POST = example_post\<lparr>POST_apply := False\<rparr>\<rparr> [1, 2] example_db
       = (example_db, [],
          render_form (Unbound \<lparr>initial_selected_action = [Int_text 1, Int_text 2, Int_text 999],
                                initial_assigned_to = alice\<rparr>) [1, 2]))"
proof -
  let ?r2 = "\<lparr>request_user = alice, POST = example_post\<lparr>POST_apply := False\<rparr>\<rparr>"
  have h1: "POST_apply (POST example_request)"
    by (simp add: example_request_def example_post_def)
  have h2: "is_valid (AssignValidationTaskForm example_db (POST example_request))"
    by (simp add: example_request_def AssignValidationTaskForm_def example_valid)
  have h3: "\<not> POST_apply (POST ?r2)" by simp
  have u: "fst (request_user example_request) = 1"
    "POST_assigned_to (POST example_request) = Some 2"
    "POST_selected_action (POST ?r2) = [Int_text 1, Int_text 2, Int_text 999]"
    by (simp_all add: example_request_def example_post_def alice_def)
  show ?thesis
    using h1 h2 h3 u C8_creator_and_prefilled_assignee [of example_request example_db "[1, 2]"]
      C8_creator_and_prefilled_assignee [of ?r2 example_db "[1, 2]"]
    by auto
qed

text \<open>
  C10: the queryset of the documents selected in the change list has no influence on
  the database or on the messages that the action leaves; on a valid apply-phase
  submission the whole result (task, links, tags, count, outcome) is the same for any
  two querysets, being fixed by the submitted form data and the database alone.
\<close>

theorem C10_selected_queryset_not_used:
  "fst (assign_validation_task req q1 s) = fst (assign_validation_task req q2 s)
   \<and> fst (snd (assign_validation_task req q1 s)) = fst (snd (assign_validation_task req q2 s))
   \<and> (POST_apply (POST req) \<and> is_valid (AssignValidationTaskForm s (POST req))
        \<longrightarrow> assign_validation_task req q1 s = assign_validation_task req q2 s)"
proof (cases "POST_apply (POST req)")
  case False
  then show ?thesis by (simp add: assign_validation_task_def)
next
  case ap: True
  show ?thesis
  proof (cases "is_valid (AssignValidationTaskForm s (POST req))")
    case True
    then obtain cd where fc: "full_clean s (POST req) = Inr cd"
      by (auto simp: is_valid_iff)
    show ?thesis
      unfolding assign_created [OF ap fc] by simp
  next
    case False
    then show ?thesis
      using ap by (simp add: assign_invalid)
  qed
qed

theorem C10_selected_queryset_not_used_witness:
  "POST_apply (POST example_request)
   \<and> is_valid (AssignValidationTaskForm example_db (POST example_request))
   \<and> assign_validation_task example_request [1, 2, 999] example_db
       = assign_validation_task example_request [] example_db"
proof -
  have h1: "POST_apply (POST example_request)"
    by (simp add: example_request_def example_post_def)
  have h2: "is_valid (AssignValidationTaskForm example_db (POST example_request))"
    by (simp add: example_request_def AssignValidationTaskForm_def example_valid)
  show ?thesis
    using h1 h2 C10_selected_queryset_not_used [of example_request "[1, 2, 999]" example_db "[]"]
    by simp
qed

end
